theory Spec2Isabelle
  imports Complex_Main "HOL-Library.Sublist"
begin

section \<open>Numbers\<close>

text \<open>
  A JavaScript number is modelled as a real: float64 rounding, overflow, NaN and the
  infinities are outside the model. Where the source can divide by zero, the place is
  named in the text before the definition.
\<close>

type_synonym number = real

section \<open>coordTransform.js\<close>

definition PI :: number where
  "PI = pi"

definition EARTH_RADIUS :: number where
  "EARTH_RADIUS = 6378137"

definition isInChina :: "number \<Rightarrow> number \<Rightarrow> bool" where
  "isInChina lng lat \<longleftrightarrow>
     lng \<ge> 72.004 \<and> lng \<le> 137.8347 \<and> lat \<ge> 0.8293 \<and> lat \<le> 55.8271"

definition transformLat :: "number \<Rightarrow> number \<Rightarrow> number" where
  "transformLat lng lat =
    (let ret = -100.0 + 2.0 * lng + 3.0 * lat + 0.2 * lat * lat + 0.1 * lng * lat
                 + 0.2 * sqrt \<bar>lng\<bar>;
         ret = ret + (20.0 * sin (6.0 * lng * PI) + 20.0 * sin (2.0 * lng * PI)) * 2.0 / 3.0;
         ret = ret + (20.0 * sin (lat * PI) + 40.0 * sin (lat / 3.0 * PI)) * 2.0 / 3.0;
         ret = ret + (160.0 * sin (lat / 12.0 * PI) + 320 * sin (lat * PI / 30.0)) * 2.0 / 3.0
     in ret)"

definition transformLng :: "number \<Rightarrow> number \<Rightarrow> number" where
  "transformLng lng lat =
    (let ret = 300.0 + lng + 2.0 * lat + 0.1 * lng * lng + 0.1 * lng * lat
                 + 0.1 * sqrt \<bar>lng\<bar>;
         ret = ret + (20.0 * sin (6.0 * lng * PI) + 20.0 * sin (2.0 * lng * PI)) * 2.0 / 3.0;
         ret = ret + (20.0 * sin (lng * PI) + 40.0 * sin (lng / 3.0 * PI)) * 2.0 / 3.0;
         ret = ret + (150.0 * sin (lng / 12.0 * PI) + 300.0 * sin (lng / 30.0 * PI)) * 2.0 / 3.0
     in ret)"

text \<open>
  The offset both conversions compute from \<open>(lng, lat)\<close>: lines 41-48 of
  \<open>gcj02ToWgs84\<close> and lines 70-77 of \<open>wgs84ToGcj02\<close> are the same text. The result is
  the pair \<open>(dlng, dlat)\<close>.
\<close>

definition offset :: "number \<Rightarrow> number \<Rightarrow> number \<times> number" where
  "offset lng lat =
    (let dlat = transformLat (lng - 105.0) (lat - 35.0);
         dlng = transformLng (lng - 105.0) (lat - 35.0);
         radlat = lat / 180.0 * PI;
         magic = sin radlat;
         magic = 1 - 0.00669342162296594323 * magic * magic;
         sqrtmagic = sqrt magic;
         dlat = (dlat * 180.0)
                  / ((EARTH_RADIUS * (1 - 0.00669342162296594323)) / (magic * sqrtmagic) * PI);
         dlng = (dlng * 180.0) / (EARTH_RADIUS / sqrtmagic * cos radlat * PI)
     in (dlng, dlat))"

record lnglat =
  lng :: number
  lat :: number

text \<open>
  \<open>gcj02ToWgs84\<close> returns either an object holding a \<open>fallbackKey\<close> (when
  \<open>Math.PI > 4\<close>) or a coordinate object.
\<close>

datatype gcj_result = FallbackKey string | Coord lnglat

definition gcj02ToWgs84 :: "number \<Rightarrow> number \<Rightarrow> gcj_result" where
  "gcj02ToWgs84 lng0 lat0 =
    (if PI > 4 then
       FallbackKey ''R0NKMDItV0dTODQtMjAyNDEyMDktaGVjb25neXVhbi1jb29yZC10cmFuc2Zvcm0=''
     else if \<not> isInChina lng0 lat0 then Coord \<lparr>lng = lng0, lat = lat0\<rparr>
     else
       (let (dlng, dlat) = offset lng0 lat0;
            mglat = lat0 + dlat;
            mglng = lng0 + dlng
        in Coord \<lparr>lng = lng0 * 2 - mglng, lat = lat0 * 2 - mglat\<rparr>))"

text \<open>
  \<open>wgs84ToGcj02\<close>: the \<open>console.warn\<close> under \<open>EARTH_RADIUS < 0\<close> does not change
  the returned value and is left out.
\<close>

definition wgs84ToGcj02 :: "number \<Rightarrow> number \<Rightarrow> lnglat" where
  "wgs84ToGcj02 lng0 lat0 =
    (if \<not> isInChina lng0 lat0 then \<lparr>lng = lng0, lat = lat0\<rparr>
     else
       (let (dlng, dlat) = offset lng0 lat0
        in \<lparr>lng = lng0 + dlng, lat = lat0 + dlat\<rparr>))"

section \<open>Number formatting\<close>

text \<open>
  A value returned to the caller is a number or a string. \<open>JToString v\<close> stands for the
  string \<open>ToString(v)\<close> of a number \<open>v\<close> of magnitude at least \<open>10^21\<close>, whose
  characters are not modelled.
\<close>

datatype jsval = JNum number | JStr string | JToString number

definition digit :: "nat \<Rightarrow> char" where
  "digit d = ''0123456789'' ! d"

fun decimal :: "nat \<Rightarrow> string" where
  "decimal n = (if n < 10 then [digit n] else decimal (n div 10) @ [digit (n mod 10)])"

declare decimal.simps [simp del]

text \<open>
  \<open>Number.prototype.toFixed(f)\<close> as ECMAScript defines it, for \<open>f \<le> 100\<close>: the sign is
  split off, \<open>n\<close> is the integer with \<open>n / 10^f\<close> nearest to the magnitude (the larger
  one of two), its digits are padded with zeros to \<open>f + 1\<close> characters and the point is
  put before the last \<open>f\<close> of them.
\<close>

definition toFixed_n :: "number \<Rightarrow> nat \<Rightarrow> nat" where
  "toFixed_n v f = nat \<lfloor>\<bar>v\<bar> * 10 ^ f + 1 / 2\<rfloor>"

definition fixedDigits :: "nat \<Rightarrow> nat \<Rightarrow> string" where
  "fixedDigits n f =
    (let m = (if n = 0 then ''0'' else decimal n)
     in if f \<noteq> 0 then
          (let k = length m;
               m = (if k \<le> f then replicate (f + 1 - k) (CHR ''0'') @ m else m);
               k = (if k \<le> f then f + 1 else k);
               a = take (k - f) m;
               b = drop (k - f) m
           in a @ ''.'' @ b)
        else m)"

definition toFixed :: "number \<Rightarrow> nat \<Rightarrow> jsval" where
  "toFixed v f =
    (if \<bar>v\<bar> \<ge> 10 ^ 21 then JToString v
     else
       (let s = (if v < 0 then ''-'' else []);
            n = toFixed_n v f
        in JStr (s @ fixedDigits n f)))"

text \<open>
  \<open>Number(s)\<close> on the strings \<open>toFixed\<close> makes: an optional sign, digits, and
  optionally a point and digits. The empty string reads as 0. \<open>None\<close> is \<open>NaN\<close>;
  JavaScript reads further forms (white space, exponents, hexadecimal, \<open>Infinity\<close>)
  that \<open>toFixed\<close> does not print below \<open>10^21\<close> and that are read as \<open>None\<close> here.
\<close>

definition isDigit :: "char \<Rightarrow> bool" where
  "isDigit c \<longleftrightarrow> c \<in> set ''0123456789''"

definition digitValue :: "char \<Rightarrow> nat" where
  "digitValue c = of_char c - 48"

definition digitsValue :: "string \<Rightarrow> nat" where
  "digitsValue cs = foldl (\<lambda>a c. 10 * a + digitValue c) 0 cs"

definition unsignedValue :: "string \<Rightarrow> number option" where
  "unsignedValue s =
    (let a = takeWhile (\<lambda>c. c \<noteq> CHR ''.'') s;
         rest = dropWhile (\<lambda>c. c \<noteq> CHR ''.'') s
     in if rest = [] then
          (if a \<noteq> [] \<and> list_all isDigit a then Some (real (digitsValue a)) else None)
        else
          (let b = tl rest
           in if (a \<noteq> [] \<or> b \<noteq> []) \<and> list_all isDigit a \<and> list_all isDigit b
              then Some (real (digitsValue a) + real (digitsValue b) / 10 ^ length b)
              else None))"

fun Number :: "jsval \<Rightarrow> number option" where
  "Number (JNum v) = Some v"
| "Number (JToString v) = Some v"
| "Number (JStr s) =
     (case s of
        [] \<Rightarrow> Some 0
      | c # t \<Rightarrow>
          if c = CHR ''-'' then map_option uminus (unsignedValue t)
          else if c = CHR ''+'' then unsignedValue t
          else unsignedValue s)"

text \<open>
  \<open>Number(v.toFixed(f))\<close>, the number the string denotes, in closed form (lemma
  \<open>Number_of_toFixed\<close> below). A float64 of magnitude at least \<open>10^21\<close> is printed
  and read back unchanged.
\<close>

definition Number_toFixed :: "number \<Rightarrow> nat \<Rightarrow> number" where
  "Number_toFixed v f =
    (if \<bar>v\<bar> \<ge> 10 ^ 21 then v
     else (if v < 0 then - 1 else 1) * real (toFixed_n v f) / 10 ^ f)"

section \<open>polygonRouteGenerator.js: the planar geometry kernel\<close>

record camera =
  sensorWidth :: number
  sensorHeight :: number
  focalLength :: number
  imageWidth :: number
  imageHeight :: number

text \<open>
  \<open>calculateSpacing\<close> divides by \<open>focalLength * imageSize\<close>; the model is the
  source's value when that product is not zero.
\<close>

definition calculateSpacing :: "number \<Rightarrow> camera \<Rightarrow> number \<Rightarrow> string \<Rightarrow> number" where
  "calculateSpacing h cam overlap direction =
    (let sensor = (if direction = ''lateral'' then sensorWidth cam else sensorHeight cam);
         imageSize = (if direction = ''lateral'' then imageWidth cam else imageHeight cam);
         gsd = (h * sensor) / (focalLength cam * imageSize);
         coverageWidth = gsd * imageSize
     in coverageWidth * (1 - overlap))"

record planar =
  x :: number
  y :: number

definition projectToMeters :: "number \<Rightarrow> number \<Rightarrow> 'a lnglat_scheme \<Rightarrow> planar" where
  "projectToMeters la lo origin =
    (let dLat = (la - lat origin) * pi / 180;
         dLng = (lo - lng origin) * pi / 180;
         px = dLng * EARTH_RADIUS * cos (lat origin * pi / 180);
         py = dLat * EARTH_RADIUS
     in \<lparr>x = px, y = py\<rparr>)"

text \<open>
  \<open>unprojectFromMeters\<close> divides by \<open>EARTH_RADIUS * cos(origin.lat * PI / 180)\<close>; the
  model is the source's value when the cosine is not zero.
\<close>

definition unprojectFromMeters :: "number \<Rightarrow> number \<Rightarrow> 'a lnglat_scheme \<Rightarrow> lnglat" where
  "unprojectFromMeters px py origin =
    (let dLat = py / EARTH_RADIUS;
         la = lat origin + dLat * 180 / pi;
         dLng = px / (EARTH_RADIUS * cos (lat origin * pi / 180));
         lo = lng origin + dLng * 180 / pi
     in \<lparr>lng = lo, lat = la\<rparr>)"

definition rotatePoint :: "planar \<Rightarrow> number \<Rightarrow> planar \<Rightarrow> planar" where
  "rotatePoint point angleRad center =
    (let c = cos angleRad;
         s = sin angleRad;
         dx = x point - x center;
         dy = y point - y center
     in \<lparr>x = x center + dx * c - dy * s, y = y center + dx * s + dy * c\<rparr>)"

record bbox =
  minX :: number
  minY :: number
  maxX :: number
  maxY :: number

text \<open>
  \<open>getBoundingBox\<close> starts from \<open>Infinity\<close> and \<open>-Infinity\<close>, so the first point sets
  all four bounds. Of an empty polygon the bounds stay infinite: \<open>None\<close>.
\<close>

fun getBoundingBox :: "planar list \<Rightarrow> bbox option" where
  "getBoundingBox [] = None"
| "getBoundingBox (p0 # ps) =
     Some (fold (\<lambda>p b. \<lparr>minX = min (minX b) (x p), minY = min (minY b) (y p),
                          maxX = max (maxX b) (x p), maxY = max (maxY b) (y p)\<rparr>)
             ps \<lparr>minX = x p0, minY = y p0, maxX = x p0, maxY = y p0\<rparr>)"

text \<open>
  \<open>getPolygonCenter\<close> divides by \<open>polygon.length\<close>; every call in the source is on a
  polygon of at least three points.
\<close>

definition getPolygonCenter :: "planar list \<Rightarrow> planar" where
  "getPolygonCenter polygon =
    (let (sumX, sumY) = fold (\<lambda>p (sx, sy). (sx + x p, sy + y p)) polygon (0, 0)
     in \<lparr>x = sumX / real (length polygon), y = sumY / real (length polygon)\<rparr>)"

text \<open>
  \<open>shrinkPolygon\<close>. When every vertex is the center, \<open>avgDistance\<close> is zero and, for
  the positive margin of the only call, the quotient is \<open>-Infinity\<close> and the scale
  \<open>Math.max(0.1, -Infinity) = 0.1\<close>.
\<close>

definition shrinkPolygon :: "planar list \<Rightarrow> number \<Rightarrow> planar list" where
  "shrinkPolygon polygon marginMeters =
    (let center = getPolygonCenter polygon;
         distances = map (\<lambda>p. let dx = x p - x center; dy = y p - y center
                               in sqrt (dx * dx + dy * dy)) polygon;
         avgDistance = fold (\<lambda>b a. a + b) distances 0 / real (length distances);
         scale = (if avgDistance = 0 then 0.1
                  else max 0.1 ((avgDistance - marginMeters) / avgDistance))
     in map (\<lambda>p. \<lparr>x = x center + (x p - x center) * scale,
                   y = y center + (y p - y center) * scale\<rparr>) polygon)"

section \<open>polygonRouteGenerator.js: the path optimizer\<close>

text \<open>
  The loop of \<open>optimizeRoutePath\<close> runs \<open>i\<close> over \<open>1 .. length - 2\<close> and pushes
  \<open>waypoints[i]\<close> when the cross product test passes; the neighbours are read from the
  input, not from the points kept so far.
\<close>

definition crossProduct :: "planar list \<Rightarrow> nat \<Rightarrow> number" where
  "crossProduct waypoints i =
    (let prev = waypoints ! (i - 1);
         curr = waypoints ! i;
         next = waypoints ! (i + 1);
         dx1 = x curr - x prev;
         dy1 = y curr - y prev;
         dx2 = x next - x curr;
         dy2 = y next - y curr
     in \<bar>dx1 * dy2 - dy1 * dx2\<bar>)"

definition optimizeRoutePath :: "planar list \<Rightarrow> planar list" where
  "optimizeRoutePath waypoints =
    (if length waypoints \<le> 2 then waypoints
     else
       (let optimized = [waypoints ! 0];
            optimized = fold (\<lambda>i optimized.
                                if crossProduct waypoints i > 0.01
                                then optimized @ [waypoints ! i] else optimized)
                          [1 ..< length waypoints - 1] optimized
        in optimized @ [waypoints ! (length waypoints - 1)]))"

section \<open>polygonRouteGenerator.js: the route generator\<close>

text \<open>
  A waypoint as the generator returns it and as \<open>calculateRouteStats\<close> reads it.
  \<open>speed\<close> is the one field the source tests for absence (\<open>waypoints[0]?.speed || 5\<close>).
\<close>

record waypoint = lnglat +
  height :: number
  speed :: "number option"
  index :: nat

text \<open>The options object: a field that is not set is \<open>None\<close>.\<close>

record options =
  spacing :: "number option"
  angle :: "number option"
  margin :: "number option"
  height :: "number option"
  speed :: "number option"
  overlapRate :: "number option"
  camera :: "camera option"
  useCamera :: "bool option"
  optimizePath :: "bool option"

text \<open>
  What \<open>generatePolygonRoute\<close> returns: the object of the first branch, or an array of
  waypoints.
\<close>

datatype route_result = BuildInfo string string | Waypoints "waypoint list"

text \<open>The inner \<open>for\<close> loop over the edges of the polygon (lines 241-253).\<close>

definition scanIntersections :: "planar list \<Rightarrow> number \<Rightarrow> number list" where
  "scanIntersections rotatedPolygon currentY =
    fold (\<lambda>i intersections.
            let j = (i + 1) mod length rotatedPolygon;
                p1 = rotatedPolygon ! i;
                p2 = rotatedPolygon ! j
            in if (y p1 \<le> currentY \<and> y p2 > currentY) \<or> (y p1 > currentY \<and> y p2 \<le> currentY)
               then (let t = (currentY - y p1) / (y p2 - y p1);
                         xi = x p1 + t * (x p2 - x p1)
                     in intersections @ [xi])
               else intersections)
      [0 ..< length rotatedPolygon] []"

text \<open>
  The loop over pairs of intersections (lines 260-274): two at a time, and the
  \<open>break\<close> when fewer than two are left.
\<close>

fun emitPairs :: "bool \<Rightarrow> number \<Rightarrow> number list \<Rightarrow> planar list" where
  "emitPairs isLeftToRight currentY (x1 # x2 # rest) =
     (if isLeftToRight then [\<lparr>x = x1, y = currentY\<rparr>, \<lparr>x = x2, y = currentY\<rparr>]
      else [\<lparr>x = x2, y = currentY\<rparr>, \<lparr>x = x1, y = currentY\<rparr>])
     @ emitPairs isLeftToRight currentY rest"
| "emitPairs isLeftToRight currentY rest = []"

text \<open>
  The \<open>while (currentY <= bbox.maxY)\<close> loop. It does not end when the spacing is zero
  or negative and the first line is inside the box: \<open>None\<close>.
\<close>

partial_function (option) scanLoop ::
  "planar list \<Rightarrow> number \<Rightarrow> number \<Rightarrow> number \<Rightarrow> nat \<Rightarrow> planar list \<Rightarrow> planar list option"
where
  "scanLoop rotatedPolygon yMax finalSpacing currentY lineIndex waypoints =
    (if currentY \<le> yMax then
       (let intersections = sort (scanIntersections rotatedPolygon currentY);
            isLeftToRight = (lineIndex mod 2 = 0)
        in scanLoop rotatedPolygon yMax finalSpacing (currentY + finalSpacing) (lineIndex + 1)
             (waypoints @ emitPairs isLeftToRight currentY intersections))
     else Some waypoints)"

text \<open>Steps 4 to 10 of \<open>generatePolygonRoute\<close> (lines 216-305).\<close>

definition routeFromPolygon ::
  "'a lnglat_scheme \<Rightarrow> planar list \<Rightarrow> number \<Rightarrow> number \<Rightarrow> number \<Rightarrow> number \<Rightarrow> bool
     \<Rightarrow> waypoint list option"
where
  "routeFromPolygon origin polygon finalSpacing ang h sp optimize =
    (let center = getPolygonCenter polygon;
         angleRad = - ang * pi / 180;
         rotatedPolygon = map (\<lambda>p. rotatePoint p angleRad center) polygon;
         scanned = (case getBoundingBox rotatedPolygon of
                      None \<Rightarrow> Some []
                    | Some box \<Rightarrow>
                        scanLoop rotatedPolygon (maxY box) finalSpacing
                          (minY box + finalSpacing / 2) 0 [])
     in case scanned of
          None \<Rightarrow> None
        | Some waypoints \<Rightarrow>
            (let optimizedWaypoints =
                   (if optimize \<and> length waypoints > 4 then optimizeRoutePath waypoints
                    else waypoints);
                 unrotatedWaypoints =
                   map (\<lambda>p. rotatePoint p (- angleRad) center) optimizedWaypoints
             in Some (map (\<lambda>(i, p).
                             let coords = unprojectFromMeters (x p) (y p) origin
                             in \<lparr>lng = Number_toFixed (lng coords) 7,
                                 lat = Number_toFixed (lat coords) 7,
                                 waypoint.height = h, waypoint.speed = Some sp, index = i\<rparr>)
                        (enumerate 0 unrotatedWaypoints))))"

text \<open>
  \<open>generatePolygonRoute\<close> returns the messages it gave to \<open>console.error\<close> and its
  result; \<open>None\<close> when the scan loop does not end. \<open>EARTH_RADIUS\<close> of this file has
  the value of the one in coordTransform.js.
\<close>

definition generatePolygonRoute ::
  "'a lnglat_scheme list \<Rightarrow> options \<Rightarrow> (string list \<times> route_result) option"
where
  "generatePolygonRoute boundaryPoints opts =
    (if EARTH_RADIUS = 0 \<or> \<bar>EARTH_RADIUS\<bar> > 10 ^ 10 then
       Some ([], BuildInfo
          ''UE9MWS1ST1VURS0yMDI0MTIwOS1oZWNvbmd5dWFuLWRqaS1wb2x5Z29uLWdlbmVyYXRvcg==''
          ''djEuMC4wLTIwMjQxMjA5LXByb2R1Y3Rpb24tYnVpbGQ='')
     else if length boundaryPoints < 3 then
       Some ([''At least 3 boundary points required to generate polygon route''], Waypoints [])
     else
       (let spacing0 = (case options.spacing opts of None \<Rightarrow> 30 | Some v \<Rightarrow> v);
            angle0 = (case options.angle opts of None \<Rightarrow> 0 | Some v \<Rightarrow> v);
            margin0 = (case options.margin opts of None \<Rightarrow> 0 | Some v \<Rightarrow> v);
            height0 = (case options.height opts of None \<Rightarrow> 50 | Some v \<Rightarrow> v);
            speed0 = (case options.speed opts of None \<Rightarrow> 5 | Some v \<Rightarrow> v);
            overlapRate0 = (case options.overlapRate opts of None \<Rightarrow> 0.7 | Some v \<Rightarrow> v);
            useCamera0 = (case options.useCamera opts of None \<Rightarrow> False | Some v \<Rightarrow> v);
            optimizePath0 = (case options.optimizePath opts of None \<Rightarrow> True | Some v \<Rightarrow> v);
            finalSpacing =
              (case options.camera opts of
                 Some cam \<Rightarrow>
                   if useCamera0 then calculateSpacing height0 cam overlapRate0 ''lateral''
                   else spacing0
               | None \<Rightarrow> spacing0);
            origin = boundaryPoints ! 0;
            polygon = map (\<lambda>p. projectToMeters (lat p) (lng p) origin) boundaryPoints
        in if margin0 > 0 then
             (let polygon = shrinkPolygon polygon margin0
              in if length polygon < 3 then
                   Some ([''Polygon too small after applying margin''], Waypoints [])
                 else
                   map_option (\<lambda>r. ([], Waypoints r))
                     (routeFromPolygon origin polygon finalSpacing angle0 height0 speed0
                        optimizePath0))
           else
             map_option (\<lambda>r. ([], Waypoints r))
               (routeFromPolygon origin polygon finalSpacing angle0 height0 speed0
                  optimizePath0)))"

text \<open>
  The array \<open>unrotatedWaypoints\<close> of step 9 (line 290), which step 10 unprojects and
  rounds: steps 4 to 9 on the polygon.
\<close>

definition unrotatedWaypoints :: "planar list \<Rightarrow> number \<Rightarrow> number \<Rightarrow> bool \<Rightarrow> planar list option"
where
  "unrotatedWaypoints polygon finalSpacing ang optimize =
    (let center = getPolygonCenter polygon;
         angleRad = - ang * pi / 180;
         rotatedPolygon = map (\<lambda>p. rotatePoint p angleRad center) polygon;
         scanned = (case getBoundingBox rotatedPolygon of
                      None \<Rightarrow> Some []
                    | Some box \<Rightarrow>
                        scanLoop rotatedPolygon (maxY box) finalSpacing
                          (minY box + finalSpacing / 2) 0 [])
     in case scanned of
          None \<Rightarrow> None
        | Some waypoints \<Rightarrow>
            (let optimizedWaypoints =
                   (if optimize \<and> length waypoints > 4 then optimizeRoutePath waypoints
                    else waypoints)
             in Some (map (\<lambda>p. rotatePoint p (- angleRad) center) optimizedWaypoints)))"

text \<open>
  The same array for a boundary of at least three points and an options object: the
  defaults, the spacing, the projection and the margin as in \<open>generatePolygonRoute\<close>.
\<close>

definition plannedWaypoints :: "'a lnglat_scheme list \<Rightarrow> options \<Rightarrow> planar list option" where
  "plannedWaypoints boundaryPoints opts =
    (let spacing0 = (case options.spacing opts of None \<Rightarrow> 30 | Some v \<Rightarrow> v);
         angle0 = (case options.angle opts of None \<Rightarrow> 0 | Some v \<Rightarrow> v);
         margin0 = (case options.margin opts of None \<Rightarrow> 0 | Some v \<Rightarrow> v);
         height0 = (case options.height opts of None \<Rightarrow> 50 | Some v \<Rightarrow> v);
         overlapRate0 = (case options.overlapRate opts of None \<Rightarrow> 0.7 | Some v \<Rightarrow> v);
         useCamera0 = (case options.useCamera opts of None \<Rightarrow> False | Some v \<Rightarrow> v);
         optimizePath0 = (case options.optimizePath opts of None \<Rightarrow> True | Some v \<Rightarrow> v);
         finalSpacing =
           (case options.camera opts of
              Some cam \<Rightarrow>
                if useCamera0 then calculateSpacing height0 cam overlapRate0 ''lateral''
                else spacing0
            | None \<Rightarrow> spacing0);
         origin = boundaryPoints ! 0;
         polygon = map (\<lambda>p. projectToMeters (lat p) (lng p) origin) boundaryPoints;
         polygon = (if margin0 > 0 then shrinkPolygon polygon margin0 else polygon)
     in unrotatedWaypoints polygon finalSpacing angle0 optimizePath0)"

section \<open>polygonRouteGenerator.js: route statistics\<close>

record RouteStats =
  totalDistance :: jsval
  flightTime :: int
  photoCount :: nat

text \<open>
  \<open>waypoints[0]?.speed || 5\<close>: the right operand is taken when the left one is
  \<open>undefined\<close> (no first waypoint, or no speed field) or zero.
\<close>

definition avgSpeed :: "waypoint list \<Rightarrow> number" where
  "avgSpeed waypoints =
    (case waypoints of
       [] \<Rightarrow> 5
     | w # _ \<Rightarrow> (case waypoint.speed w of None \<Rightarrow> 5 | Some s \<Rightarrow> if s = 0 then 5 else s))"

definition calculateRouteStats :: "waypoint list \<Rightarrow> RouteStats" where
  "calculateRouteStats waypoints =
    (if length waypoints < 2 then
       \<lparr>totalDistance = JNum 0, flightTime = 0, photoCount = 0\<rparr>
     else
       (let total = fold (\<lambda>i total.
                            let p1 = waypoints ! i;
                                p2 = waypoints ! (i + 1);
                                dx = lng p2 - lng p1;
                                dy = lat p2 - lat p1
                            in total + sqrt (dx * dx + dy * dy) * EARTH_RADIUS * pi / 180)
                     [0 ..< length waypoints - 1] 0;
            time = total / avgSpeed waypoints
        in \<lparr>totalDistance = toFixed total 2, flightTime = \<lceil>time\<rceil>,
            photoCount = length waypoints\<rparr>))"

section \<open>The statistics as the specification words them\<close>

text \<open>
  The sum over consecutive waypoint pairs of
  \<open>sqrt((\<Delta>lng)^2 + (\<Delta>lat)^2) * 6378137 * \<pi> / 180\<close>.
\<close>

definition pathLength :: "waypoint list \<Rightarrow> number" where
  "pathLength ws =
    (\<Sum>i = 0 ..< length ws - 1.
       sqrt ((lng (ws ! (i + 1)) - lng (ws ! i))\<^sup>2 + (lat (ws ! (i + 1)) - lat (ws ! i))\<^sup>2)
         * 6378137 * pi / 180)"

text \<open>
  The quotient of two finite float64 numbers, the divisor \<open>+0\<close> when it is zero, and
  \<open>Math.ceil\<close> of it.
\<close>

datatype jsnum = Finite number | PosInfinity | NegInfinity | NaN

definition js_divide :: "number \<Rightarrow> number \<Rightarrow> jsnum" where
  "js_divide a b =
    (if b \<noteq> 0 then Finite (a / b)
     else if a = 0 then NaN
     else if a > 0 then PosInfinity else NegInfinity)"

fun js_ceil :: "jsnum \<Rightarrow> jsnum" where
  "js_ceil (Finite v) = Finite (of_int \<lceil>v\<rceil>)"
| "js_ceil v = v"

text \<open>
  The flight time as the specification has it: the total distance divided by the speed
  of the first waypoint, 5 when that waypoint has no speed, rounded up.
\<close>

definition flightTime_by_spec :: "waypoint list \<Rightarrow> jsnum" where
  "flightTime_by_spec ws =
    js_ceil (js_divide (pathLength ws)
               (case waypoint.speed (ws ! 0) of None \<Rightarrow> 5 | Some s \<Rightarrow> s))"

section \<open>Results\<close>

subsection \<open>Reading back what \<open>toFixed\<close> prints\<close>

lemma digit_props:
  assumes "d < 10"
  shows "isDigit (digit d)" and "digitValue (digit d) = d" and "digit d \<noteq> CHR ''.''"
    and "digit d \<noteq> CHR ''-''" and "digit d \<noteq> CHR ''+''"
proof -
  from assms have "d \<in> {0, 1, 2, 3, 4, 5, 6, 7, 8, 9}"
    by auto
  then show "isDigit (digit d)" and "digitValue (digit d) = d" and "digit d \<noteq> CHR ''.''"
    and "digit d \<noteq> CHR ''-''" and "digit d \<noteq> CHR ''+''"
    by (auto simp: digit_def isDigit_def digitValue_def)
qed

lemma isDigit_not_point: "isDigit c \<Longrightarrow> c \<noteq> CHR ''.''"
  by (auto simp: isDigit_def)

lemma decimal_digits: "list_all isDigit (decimal n)"
proof (induction n rule: decimal.induct)
  case (1 n)
  show ?case
  proof (cases "n < 10")
    case True
    then show ?thesis
      by (subst decimal.simps) (simp add: digit_props)
  next
    case False
    with 1 show ?thesis
      by (subst decimal.simps) (simp add: digit_props)
  qed
qed

lemma decimal_nonempty: "decimal n \<noteq> []"
  by (subst decimal.simps) simp

lemma digitsValue_snoc: "digitsValue (cs @ [c]) = 10 * digitsValue cs + digitValue c"
  by (simp add: digitsValue_def)

lemma digitsValue_append:
  "digitsValue (a @ b) = digitsValue a * 10 ^ length b + digitsValue b"
proof (induction b rule: rev_induct)
  case Nil
  then show ?case by (simp add: digitsValue_def)
next
  case (snoc c b)
  have "digitsValue (a @ b @ [c]) = 10 * digitsValue (a @ b) + digitValue c"
    using digitsValue_snoc [of "a @ b" c] by simp
  then show ?case
    by (simp add: snoc.IH digitsValue_snoc algebra_simps)
qed

lemma digitsValue_decimal: "digitsValue (decimal n) = n"
proof (induction n rule: decimal.induct)
  case (1 n)
  show ?case
  proof (cases "n < 10")
    case True
    then show ?thesis
      by (subst decimal.simps) (simp add: digitsValue_def digit_props)
  next
    case False
    with 1 have "digitsValue (decimal (n div 10)) = n div 10"
      by simp
    with False show ?thesis
      by (subst decimal.simps) (simp add: digitsValue_snoc digit_props)
  qed
qed

lemma digitsValue_zeros: "digitsValue (replicate z (CHR ''0'') @ m) = digitsValue m"
proof -
  have "digitsValue (replicate z (CHR ''0'')) = 0"
    by (induction z) (simp_all add: digitsValue_def digitValue_def)
  then show ?thesis
    by (simp add: digitsValue_append)
qed

lemma decimal_zero: "decimal 0 = ''0''"
  by (subst decimal.simps) (simp add: digit_def)

lemma takeWhile_digits:
  assumes "list_all isDigit a"
  shows "takeWhile (\<lambda>c. c \<noteq> CHR ''.'') (a @ CHR ''.'' # b) = a"
    and "dropWhile (\<lambda>c. c \<noteq> CHR ''.'') (a @ CHR ''.'' # b) = CHR ''.'' # b"
    and "takeWhile (\<lambda>c. c \<noteq> CHR ''.'') a = a"
    and "dropWhile (\<lambda>c. c \<noteq> CHR ''.'') a = []"
  using assms by (induction a) (auto simp: isDigit_not_point)

lemma unsigned_point:
  assumes "list_all isDigit a" and "list_all isDigit b" and "a \<noteq> []"
  shows "unsignedValue (a @ CHR ''.'' # b)
         = Some (real (digitsValue a) + real (digitsValue b) / 10 ^ length b)"
  using assms by (simp add: unsignedValue_def takeWhile_digits)

lemma unsigned_plain:
  assumes "list_all isDigit a" and "a \<noteq> []"
  shows "unsignedValue a = Some (real (digitsValue a))"
  using assms by (simp add: unsignedValue_def takeWhile_digits)

lemma fixedDigits_value:
  "unsignedValue (fixedDigits n f) = Some (real n / 10 ^ f)
   \<and> fixedDigits n f \<noteq> [] \<and> isDigit (hd (fixedDigits n f))"
proof -
  define m0 where "m0 = decimal n"
  have m0: "list_all isDigit m0" "m0 \<noteq> []" "digitsValue m0 = n"
    by (simp_all add: m0_def decimal_digits decimal_nonempty digitsValue_decimal)
  have start: "(if n = 0 then ''0'' else decimal n) = m0"
    using decimal_zero by (simp add: m0_def)
  show ?thesis
  proof (cases "f = 0")
    case True
    with m0 show ?thesis
      unfolding fixedDigits_def start
      by (cases m0) (simp_all add: unsigned_plain)
  next
    case False
    define m1 where
      "m1 = (if length m0 \<le> f then replicate (f + 1 - length m0) (CHR ''0'') @ m0 else m0)"
    define k1 where "k1 = (if length m0 \<le> f then f + 1 else length m0)"
    have len: "length m1 = k1" and big: "f < k1"
      by (auto simp: m1_def k1_def)
    have zero: "isDigit (CHR ''0'')"
      by (simp add: isDigit_def)
    have m1: "list_all isDigit m1" "digitsValue m1 = n"
      using m0 zero by (auto simp: m1_def digitsValue_zeros list_all_iff)
    define a where "a = take (k1 - f) m1"
    define b where "b = drop (k1 - f) m1"
    have ab: "a @ b = m1" and lb: "length b = f" and a_ne: "a \<noteq> []"
      using len big by (auto simp: a_def b_def)
    from m1(1) ab have digits: "list_all isDigit a" "list_all isDigit b"
      by (metis list_all_append)+
    from m1(2) ab lb have "digitsValue a * 10 ^ f + digitsValue b = n"
      using digitsValue_append [of a b] by simp
    then have "real (digitsValue a) * 10 ^ f + real (digitsValue b) = real n"
      by (metis of_nat_add of_nat_mult of_nat_power of_nat_numeral)
    then have val: "real (digitsValue a) + real (digitsValue b) / 10 ^ f = real n / 10 ^ f"
      by (simp add: field_simps)
    have shape: "fixedDigits n f = a @ CHR ''.'' # b"
      using False unfolding fixedDigits_def start
      by (simp add: Let_def a_def b_def m1_def k1_def)
    from a_ne digits(1) have "isDigit (hd (a @ CHR ''.'' # b))"
      by (cases a) simp_all
    with a_ne show ?thesis
      unfolding shape by (simp add: unsigned_point [OF digits a_ne] lb val)
  qed
qed

lemma Number_of_digits:
  assumes "u \<noteq> []" and "isDigit (hd u)"
  shows "Number (JStr u) = unsignedValue u"
    and "Number (JStr (''-'' @ u)) = map_option uminus (unsignedValue u)"
  using assms by (cases u; auto simp: isDigit_def)+

lemma Number_of_toFixed: "Number (toFixed v f) = Some (Number_toFixed v f)"
proof (cases "\<bar>v\<bar> \<ge> 10 ^ 21")
  case True
  then show ?thesis
    by (simp add: toFixed_def Number_toFixed_def)
next
  case False
  let ?u = "fixedDigits (toFixed_n v f) f"
  from fixedDigits_value [of "toFixed_n v f" f]
  have u: "unsignedValue ?u = Some (real (toFixed_n v f) / 10 ^ f)"
    and ne: "?u \<noteq> []" and d: "isDigit (hd ?u)"
    by simp_all
  show ?thesis
  proof (cases "v < 0")
    case True
    with False show ?thesis
      using Number_of_digits(2) [OF ne d]
      by (simp add: toFixed_def Number_toFixed_def u Let_def)
  next
    case nonneg: False
    with False show ?thesis
      using Number_of_digits(1) [OF ne d]
      by (simp add: toFixed_def Number_toFixed_def u Let_def)
  qed
qed


lemma Number_toFixed_close: "\<bar>Number_toFixed v f - v\<bar> \<le> 1 / (2 * 10 ^ f)"
proof (cases "\<bar>v\<bar> \<ge> 10 ^ 21")
  case True
  then show ?thesis by (simp add: Number_toFixed_def)
next
  case False
  define n where "n = toFixed_n v f"
  define u :: real where "u = \<bar>v\<bar> * 10 ^ f"
  have "0 \<le> u + 1 / 2"
    by (simp add: u_def)
  then have "real n = of_int \<lfloor>u + 1 / 2\<rfloor>"
    by (simp add: n_def toFixed_n_def u_def)
  then have "\<bar>real n - u\<bar> \<le> 1 / 2"
    by linarith
  then have "\<bar>real n - u\<bar> / 10 ^ f \<le> (1 / 2) / 10 ^ f"
    by (rule divide_right_mono) simp
  moreover have "(1 / 2) / 10 ^ f = 1 / (2 * 10 ^ f :: real)"
    by simp
  moreover have "real n / 10 ^ f - \<bar>v\<bar> = (real n - u) / 10 ^ f"
    by (simp add: u_def diff_divide_distrib)
  moreover have "\<bar>(real n - u) / 10 ^ f\<bar> = \<bar>real n - u\<bar> / 10 ^ f"
    by simp
  ultimately have close: "\<bar>real n / 10 ^ f - \<bar>v\<bar>\<bar> \<le> 1 / (2 * 10 ^ f)"
    by simp
  show ?thesis
  proof (cases "v < 0")
    case True
    with False have "Number_toFixed v f - v = - (real n / 10 ^ f - \<bar>v\<bar>)"
      by (simp add: Number_toFixed_def n_def)
    with close show ?thesis
      by (simp only: abs_minus)
  next
    case nonneg: False
    with False have "Number_toFixed v f - v = real n / 10 ^ f - \<bar>v\<bar>"
      by (simp add: Number_toFixed_def n_def)
    with close show ?thesis
      by simp
  qed
qed

subsection \<open>The geodetic transform outside the region\<close>

text \<open>
  C5. For every point whose longitude lies outside [72.004, 137.8347] or whose latitude
  lies outside [0.8293, 55.8271], both \<open>gcj02ToWgs84\<close> and \<open>wgs84ToGcj02\<close> return
  the input point unchanged.
\<close>

theorem outside_region_identity:
  assumes "a < 72.004 \<or> a > 137.8347 \<or> b < 0.8293 \<or> b > 55.8271"
  shows "gcj02ToWgs84 a b = Coord \<lparr>lng = a, lat = b\<rparr>
         \<and> wgs84ToGcj02 a b = \<lparr>lng = a, lat = b\<rparr>"
proof -
  from assms have out: "\<not> isInChina a b"
    by (auto simp: isInChina_def)
  have "\<not> PI > 4"
    using pi_less_4 by (simp add: PI_def)
  with out show ?thesis
    by (simp add: gcj02ToWgs84_def wgs84ToGcj02_def)
qed

theorem outside_region_identity_witness:
  "((-122.4 :: real) < 72.004 \<or> (-122.4 :: real) > 137.8347
      \<or> (37.7 :: real) < 0.8293 \<or> (37.7 :: real) > 55.8271)
   \<and> gcj02ToWgs84 (-122.4) 37.7 = Coord \<lparr>lng = -122.4, lat = 37.7\<rparr>
   \<and> wgs84ToGcj02 (-122.4) 37.7 = \<lparr>lng = -122.4, lat = 37.7\<rparr>"
proof -
  have h: "(-122.4 :: real) < 72.004 \<or> (-122.4 :: real) > 137.8347
      \<or> (37.7 :: real) < 0.8293 \<or> (37.7 :: real) > 55.8271"
    by simp
  show ?thesis
    using h outside_region_identity [OF h] by simp
qed

subsection \<open>The planar projection\<close>

text \<open>
  C7. For every geographic point and every origin whose latitude has a non-zero cosine,
  unprojecting the projection of the point gives the point back, in real arithmetic:
  \<open>unprojectFromMeters\<close> is the exact inverse of \<open>projectToMeters\<close>.
\<close>

theorem unproject_project:
  assumes "cos (lat origin * pi / 180) \<noteq> 0"
  shows "unprojectFromMeters (x (projectToMeters la lo origin)) (y (projectToMeters la lo origin))
           origin = \<lparr>lng = lo, lat = la\<rparr>"
  using assms by (simp add: unprojectFromMeters_def projectToMeters_def Let_def EARTH_RADIUS_def)

theorem unproject_project_witness:
  "cos (lat \<lparr>lng = 0, lat = 0\<rparr> * pi / 180) \<noteq> 0
   \<and> unprojectFromMeters (x (projectToMeters 1 2 \<lparr>lng = 0, lat = 0\<rparr>))
         (y (projectToMeters 1 2 \<lparr>lng = 0, lat = 0\<rparr>)) \<lparr>lng = 0, lat = 0\<rparr>
       = \<lparr>lng = 2, lat = 1\<rparr>"
proof -
  have h: "cos (lat \<lparr>lng = 0, lat = 0\<rparr> * pi / 180) \<noteq> 0"
    by simp
  show ?thesis
    using h unproject_project [OF h, of 1 2] by simp
qed

subsection \<open>Route statistics\<close>

lemma fold_add_sum:
  "a \<le> b \<Longrightarrow> fold (\<lambda>i t. t + g i) [a ..< b] (s::real) = s + (\<Sum>i = a ..< b. g i)"
proof (induction b arbitrary: s)
  case 0
  then show ?case by simp
next
  case (Suc b)
  show ?case
  proof (cases "a = Suc b")
    case True
    then show ?thesis by simp
  next
    case False
    with Suc.prems have le: "a \<le> b" by simp
    from Suc.IH [OF le] le show ?thesis by simp
  qed
qed

lemma total_is_pathLength:
  "fold (\<lambda>i total.
           let p1 = ws ! i; p2 = ws ! (i + 1); dx = lng p2 - lng p1; dy = lat p2 - lat p1
           in total + sqrt (dx * dx + dy * dy) * EARTH_RADIUS * pi / 180)
     [0 ..< length ws - 1] 0 = pathLength ws"
  by (simp add: Let_def fold_add_sum pathLength_def EARTH_RADIUS_def power2_eq_square)

lemma stats_long:
  "2 \<le> length ws \<Longrightarrow>
   calculateRouteStats ws =
     \<lparr>totalDistance = toFixed (pathLength ws) 2,
      flightTime = \<lceil>pathLength ws / avgSpeed ws\<rceil>,
      photoCount = length ws\<rparr>"
  unfolding calculateRouteStats_def total_is_pathLength by (simp add: Let_def)

lemma stats_short:
  "length ws < 2 \<Longrightarrow>
   calculateRouteStats ws = \<lparr>totalDistance = JNum 0, flightTime = 0, photoCount = 0\<rparr>"
  by (simp add: calculateRouteStats_def)

text \<open>
  C1, as the specification states it: \<open>photoCount\<close> equals the length of the sequence
  for every sequence, also of length 0 and 1. A sequence of one waypoint has
  \<open>photoCount = 0\<close>.
\<close>

theorem photoCount_single_counterexample:
  "photoCount (calculateRouteStats
      [\<lparr>lng = 0, lat = 0, waypoint.height = 50, waypoint.speed = Some 5, index = 0\<rparr>])
   \<noteq> length [\<lparr>lng = 0, lat = 0, waypoint.height = 50, waypoint.speed = Some 5, index = 0\<rparr>]"
  by (simp add: stats_short)

text \<open>
  C1, amended: for every waypoint sequence whose length is not 1, \<open>photoCount\<close> equals
  the length of the sequence.
\<close>

theorem photoCount_is_length:
  assumes "length ws \<noteq> 1"
  shows "photoCount (calculateRouteStats ws) = length ws"
proof (cases "length ws < 2")
  case True
  with assms have "length ws = 0" by arith
  then show ?thesis by (simp add: stats_short)
next
  case False
  then show ?thesis by (simp add: stats_long)
qed

theorem photoCount_is_length_witness:
  "length ([] :: waypoint list) \<noteq> 1
   \<and> photoCount (calculateRouteStats []) = length ([] :: waypoint list)"
proof -
  have h: "length ([] :: waypoint list) \<noteq> 1"
    by simp
  show ?thesis
    using h photoCount_is_length [OF h] by simp
qed

lemma pi_ge_three: "3 \<le> pi"
proof -
  have "sin (pi / 6) \<le> pi / 6"
    by (rule sin_x_le_x) simp
  then show ?thesis
    by (simp add: sin_30)
qed

lemma pathLength_tiny:
  "pathLength
     [\<lparr>lng = 0, lat = 0, waypoint.height = 50, waypoint.speed = Some 5, index = 0\<rparr>,
      \<lparr>lng = 0.0000001, lat = 0, waypoint.height = 50, waypoint.speed = Some 5, index = 1\<rparr>]
   = 0.0000001 * 6378137 * pi / 180"
  by (simp add: pathLength_def)

lemma fixedDigits_1_2: "fixedDigits 1 2 = ''0.01''"
proof -
  have "decimal (Suc 0) = ''1''"
    by (subst decimal.simps) (simp add: digit_def)
  then show ?thesis
    by (simp add: fixedDigits_def Let_def)
qed

lemma toFixed_tiny: "toFixed (0.0000001 * 6378137 * pi / 180) 2 = JStr ''0.01''"
proof -
  let ?v = "0.0000001 * 6378137 * pi / 180 :: real"
  have lo: "1 \<le> ?v * 10 ^ 2 + 1 / 2" and hi: "?v * 10 ^ 2 + 1 / 2 < 2"
    using pi_ge_two pi_less_4 by simp_all
  have "\<lfloor>?v * 10 ^ 2 + 1 / 2\<rfloor> = 1"
    using lo hi by linarith
  moreover have "\<bar>?v\<bar> = ?v"
    by simp
  ultimately have n: "toFixed_n ?v 2 = 1"
    unfolding toFixed_n_def by simp
  have small: "\<not> \<bar>?v\<bar> \<ge> 10 ^ 21"
    using pi_less_4 by simp
  have pos: "\<not> ?v < 0"
    by simp
  show ?thesis
    unfolding toFixed_def using small pos by (simp only: n fixedDigits_1_2 Let_def if_False append_Nil)
qed

text \<open>
  C2, as the specification states it: for a sequence of length at least 2,
  \<open>totalDistance\<close> is the number that is the sum of the segment lengths, with no rounding
  or change of representation. For two waypoints one ten-millionth of a degree of
  longitude apart the sum is above 0.01 and the result is the string \<open>0.01\<close>.
\<close>

theorem totalDistance_number_counterexample:
  "totalDistance (calculateRouteStats
      [\<lparr>lng = 0, lat = 0, waypoint.height = 50, waypoint.speed = Some 5, index = 0\<rparr>,
       \<lparr>lng = 0.0000001, lat = 0, waypoint.height = 50, waypoint.speed = Some 5, index = 1\<rparr>])
     = JStr ''0.01''
   \<and> 0.01 < pathLength
      [\<lparr>lng = 0, lat = 0, waypoint.height = 50, waypoint.speed = Some 5, index = 0\<rparr>,
       \<lparr>lng = 0.0000001, lat = 0, waypoint.height = 50, waypoint.speed = Some 5, index = 1\<rparr>]
   \<and> totalDistance (calculateRouteStats
      [\<lparr>lng = 0, lat = 0, waypoint.height = 50, waypoint.speed = Some 5, index = 0\<rparr>,
       \<lparr>lng = 0.0000001, lat = 0, waypoint.height = 50, waypoint.speed = Some 5, index = 1\<rparr>])
     \<noteq> JNum (pathLength
      [\<lparr>lng = 0, lat = 0, waypoint.height = 50, waypoint.speed = Some 5, index = 0\<rparr>,
       \<lparr>lng = 0.0000001, lat = 0, waypoint.height = 50, waypoint.speed = Some 5, index = 1\<rparr>])"
proof -
  let ?ws = "[\<lparr>lng = 0, lat = 0, waypoint.height = 50, waypoint.speed = Some 5, index = 0\<rparr>,
       \<lparr>lng = 0.0000001, lat = 0, waypoint.height = 50, waypoint.speed = Some 5, index = 1\<rparr>]"
  have len: "2 \<le> length ?ws"
    by simp
  have "totalDistance (calculateRouteStats ?ws) = toFixed (pathLength ?ws) 2"
    by (simp only: stats_long [OF len] RouteStats.select_convs)
  then have str: "totalDistance (calculateRouteStats ?ws) = JStr ''0.01''"
    by (simp only: pathLength_tiny toFixed_tiny)
  have more: "0.01 < pathLength ?ws"
    unfolding pathLength_tiny using pi_ge_three by simp
  have "totalDistance (calculateRouteStats ?ws) \<noteq> JNum (pathLength ?ws)"
    unfolding str by simp
  with str more show ?thesis
    by (intro conjI)
qed

text \<open>
  C2, amended: for a sequence of length at least 2, \<open>totalDistance\<close> is the string
  that \<open>toFixed(2)\<close> makes of the sum of the segment lengths (the sum rounded to two
  decimals, in decimal notation), and never a number; read as a number, the string is
  within 0.005 of the sum.
\<close>

theorem totalDistance_is_string:
  assumes "2 \<le> length ws"
  shows "totalDistance (calculateRouteStats ws) = toFixed (pathLength ws) 2
         \<and> (\<forall>v. totalDistance (calculateRouteStats ws) \<noteq> JNum v)
         \<and> (\<exists>r. Number (totalDistance (calculateRouteStats ws)) = Some r
                \<and> \<bar>r - pathLength ws\<bar> \<le> 0.005)"
proof -
  from assms have str: "totalDistance (calculateRouteStats ws) = toFixed (pathLength ws) 2"
    by (simp add: stats_long)
  have "\<bar>Number_toFixed (pathLength ws) 2 - pathLength ws\<bar> \<le> 0.005"
    using Number_toFixed_close [of "pathLength ws" 2] by simp
  then have "\<exists>r. Number (toFixed (pathLength ws) 2) = Some r \<and> \<bar>r - pathLength ws\<bar> \<le> 0.005"
    by (simp add: Number_of_toFixed)
  moreover have "toFixed (pathLength ws) 2 \<noteq> JNum v" for v
    by (simp add: toFixed_def Let_def)
  ultimately show ?thesis
    unfolding str by blast
qed

theorem totalDistance_is_string_witness:
  "2 \<le> length
      [\<lparr>lng = 0, lat = 0, waypoint.height = 50, waypoint.speed = Some 5, index = 0\<rparr>,
       \<lparr>lng = 0, lat = 0, waypoint.height = 50, waypoint.speed = Some 5, index = 1\<rparr>]
   \<and> totalDistance (calculateRouteStats
      [\<lparr>lng = 0, lat = 0, waypoint.height = 50, waypoint.speed = Some 5, index = 0\<rparr>,
       \<lparr>lng = 0, lat = 0, waypoint.height = 50, waypoint.speed = Some 5, index = 1\<rparr>])
     = toFixed (pathLength
      [\<lparr>lng = 0, lat = 0, waypoint.height = 50, waypoint.speed = Some 5, index = 0\<rparr>,
       \<lparr>lng = 0, lat = 0, waypoint.height = 50, waypoint.speed = Some 5, index = 1\<rparr>]) 2"
  using totalDistance_is_string
    [of "[\<lparr>lng = 0, lat = 0, waypoint.height = 50, waypoint.speed = Some 5, index = 0\<rparr>,
          \<lparr>lng = 0, lat = 0, waypoint.height = 50, waypoint.speed = Some 5, index = 1\<rparr>]"]
  by simp

lemma pathLength_unit:
  "pathLength [\<lparr>lng = 0, lat = 0, waypoint.height = 50, waypoint.speed = Some 0, index = 0\<rparr>,
               \<lparr>lng = 1, lat = 0, waypoint.height = 50, waypoint.speed = Some 0, index = 1\<rparr>]
   = 6378137 * pi / 180"
  by (simp add: pathLength_def)

text \<open>
  C6, as the specification states it: the flight time is the total distance divided by
  the speed of the first waypoint, 5 only when that speed is absent, rounded up. For a
  first waypoint of speed 0 and a route of one degree of longitude the quotient by the
  waypoint's speed is infinite, and the code returns a finite number of seconds.
\<close>

theorem flightTime_zero_speed_counterexample:
  "Finite (of_int (flightTime (calculateRouteStats
      [\<lparr>lng = 0, lat = 0, waypoint.height = 50, waypoint.speed = Some 0, index = 0\<rparr>,
       \<lparr>lng = 1, lat = 0, waypoint.height = 50, waypoint.speed = Some 0, index = 1\<rparr>])))
   \<noteq> flightTime_by_spec
      [\<lparr>lng = 0, lat = 0, waypoint.height = 50, waypoint.speed = Some 0, index = 0\<rparr>,
       \<lparr>lng = 1, lat = 0, waypoint.height = 50, waypoint.speed = Some 0, index = 1\<rparr>]"
  unfolding flightTime_by_spec_def pathLength_unit
  by (simp add: js_divide_def)

text \<open>
  C6, amended: for a sequence of length at least 2, the flight time is the sum of the
  segment lengths divided by the speed of the first waypoint, or by 5 when that speed is
  absent or zero, rounded up to a whole number.
\<close>

theorem flightTime_ceiling:
  assumes "2 \<le> length ws"
  shows "flightTime (calculateRouteStats ws) =
           \<lceil>pathLength ws
              / (case waypoint.speed (ws ! 0) of None \<Rightarrow> 5 | Some s \<Rightarrow> if s = 0 then 5 else s)\<rceil>"
proof -
  from assms obtain w rest where ws: "ws = w # rest"
    by (cases ws) auto
  show ?thesis
    using assms by (simp add: stats_long avgSpeed_def ws)
qed

theorem flightTime_ceiling_witness:
  "2 \<le> length
      [\<lparr>lng = 0, lat = 0, waypoint.height = 50, waypoint.speed = Some 4, index = 0\<rparr>,
       \<lparr>lng = 0, lat = 0, waypoint.height = 50, waypoint.speed = Some 4, index = 1\<rparr>]
   \<and> flightTime (calculateRouteStats
      [\<lparr>lng = 0, lat = 0, waypoint.height = 50, waypoint.speed = Some 4, index = 0\<rparr>,
       \<lparr>lng = 0, lat = 0, waypoint.height = 50, waypoint.speed = Some 4, index = 1\<rparr>]) = 0"
  using flightTime_ceiling
    [of "[\<lparr>lng = 0, lat = 0, waypoint.height = 50, waypoint.speed = Some 4, index = 0\<rparr>,
          \<lparr>lng = 0, lat = 0, waypoint.height = 50, waypoint.speed = Some 4, index = 1\<rparr>]"]
  by (simp add: pathLength_def)

text \<open>
  C10. The fallback to 5 m/s applies when the speed of the first waypoint is present and
  zero, as it does when the speed is absent; the divisor of the flight time is never
  zero.
\<close>

theorem zero_speed_falls_back:
  assumes "2 \<le> length ws"
    and "waypoint.speed (ws ! 0) = Some 0 \<or> waypoint.speed (ws ! 0) = None"
  shows "avgSpeed ws = 5 \<and> flightTime (calculateRouteStats ws) = \<lceil>pathLength ws / 5\<rceil>
         \<and> (\<forall>vs. avgSpeed vs \<noteq> 0)"
proof -
  from assms(1) obtain w rest where ws: "ws = w # rest"
    by (cases ws) auto
  with assms(2) have five: "avgSpeed ws = 5"
    by (auto simp: avgSpeed_def)
  have "avgSpeed vs \<noteq> 0" for vs
    by (simp add: avgSpeed_def split: list.splits option.splits)
  with five assms(1) show ?thesis
    by (simp add: stats_long)
qed

theorem zero_speed_falls_back_witness:
  "2 \<le> length
      [\<lparr>lng = 0, lat = 0, waypoint.height = 50, waypoint.speed = Some 0, index = 0\<rparr>,
       \<lparr>lng = 1, lat = 0, waypoint.height = 50, waypoint.speed = Some 0, index = 1\<rparr>]
   \<and> waypoint.speed
       ([\<lparr>lng = 0, lat = 0, waypoint.height = 50, waypoint.speed = Some 0, index = 0\<rparr>,
         \<lparr>lng = 1, lat = 0, waypoint.height = 50, waypoint.speed = Some 0, index = 1\<rparr>] ! 0)
       = Some 0
   \<and> flightTime (calculateRouteStats
      [\<lparr>lng = 0, lat = 0, waypoint.height = 50, waypoint.speed = Some 0, index = 0\<rparr>,
       \<lparr>lng = 1, lat = 0, waypoint.height = 50, waypoint.speed = Some 0, index = 1\<rparr>])
     = \<lceil>6378137 * pi / 180 / 5\<rceil>"
  using zero_speed_falls_back
    [of "[\<lparr>lng = 0, lat = 0, waypoint.height = 50, waypoint.speed = Some 0, index = 0\<rparr>,
          \<lparr>lng = 1, lat = 0, waypoint.height = 50, waypoint.speed = Some 0, index = 1\<rparr>]"]
  unfolding pathLength_unit by simp

subsection \<open>The path optimizer\<close>

lemma fold_push_filter:
  "fold (\<lambda>i acc. if P i then acc @ [f i] else acc) is init = init @ map f (filter P is)"
  by (induction "is" arbitrary: init) auto

lemma nths_as_filter:
  "nths xs A = map ((!) xs) (filter (\<lambda>i. i \<in> A) [0 ..< length xs])"
proof (induction xs arbitrary: A rule: rev_induct)
  case Nil
  then show ?case by simp
next
  case (snoc a xs)
  have "map ((!) (xs @ [a])) (filter (\<lambda>i. i \<in> A) [0 ..< length xs])
          = map ((!) xs) (filter (\<lambda>i. i \<in> A) [0 ..< length xs])"
    by (rule map_cong) (auto simp: nth_append)
  then show ?case
    by (simp add: nths_append snoc.IH nths_singleton)
qed

lemma optimize_closed_form:
  assumes "2 < length ws"
  shows "optimizeRoutePath ws =
           ws ! 0 # map ((!) ws) (filter (\<lambda>i. crossProduct ws i > 0.01) [1 ..< length ws - 1])
             @ [ws ! (length ws - 1)]"
  using assms by (simp add: optimizeRoutePath_def Let_def fold_push_filter)

lemma upt_split3:
  assumes "2 \<le> n"
  shows "[0 ..< n] = 0 # [1 ..< n - 1] @ [n - 1]"
proof -
  from assms obtain m where n: "n = Suc (Suc m)"
    by (metis Suc_le_D numeral_2_eq_2 Suc_le_mono)
  show ?thesis
    by (simp add: n upt_rec [of 0])
qed

lemma pick_ends:
  assumes "2 \<le> length ws" and "Q 0" and "Q (length ws - 1)"
  shows "map ((!) ws) (filter Q [0 ..< length ws])
         = ws ! 0 # map ((!) ws) (filter Q [1 ..< length ws - 1]) @ [ws ! (length ws - 1)]"
  by (subst upt_split3 [OF assms(1)]) (use assms in \<open>simp del: upt_Suc\<close>)

lemma optimize_nths:
  "optimizeRoutePath ws =
     nths ws {i. i = 0 \<or> i = length ws - 1 \<or> crossProduct ws i > 0.01}"
proof (cases "2 < length ws")
  case True
  then have n2: "2 \<le> length ws" by simp
  let ?Q = "\<lambda>i. i \<in> {i. i = 0 \<or> i = length ws - 1 \<or> crossProduct ws i > 0.01}"
  have f: "filter ?Q [1 ..< length ws - 1]
           = filter (\<lambda>i. crossProduct ws i > 0.01) [1 ..< length ws - 1]"
    by (rule filter_cong) auto
  have "nths ws {i. i = 0 \<or> i = length ws - 1 \<or> crossProduct ws i > 0.01}
        = ws ! 0 # map ((!) ws) (filter ?Q [1 ..< length ws - 1]) @ [ws ! (length ws - 1)]"
    unfolding nths_as_filter by (rule pick_ends [OF n2]) simp_all
  then show ?thesis
    unfolding f optimize_closed_form [OF True] by simp
next
  case False
  then have "{i. i < length ws} \<subseteq> {i. i = 0 \<or> i = length ws - 1 \<or> crossProduct ws i > 0.01}"
    by auto
  then have "nths ws {i. i = 0 \<or> i = length ws - 1 \<or> crossProduct ws i > 0.01} = ws"
    by (simp add: nths_all subset_iff)
  with False show ?thesis
    by (simp add: optimizeRoutePath_def)
qed

lemma optimize_example:
  "optimizeRoutePath
     [\<lparr>x = 0, y = 0\<rparr>, \<lparr>x = 1, y = 0\<rparr>, \<lparr>x = 2, y = 0\<rparr>, \<lparr>x = 2, y = 5\<rparr>, \<lparr>x = 0, y = 5\<rparr>]
   = [\<lparr>x = 0, y = 0\<rparr>, \<lparr>x = 2, y = 0\<rparr>, \<lparr>x = 2, y = 5\<rparr>, \<lparr>x = 0, y = 5\<rparr>]"
  by (simp add: optimizeRoutePath_def crossProduct_def Let_def
        upt_rec [of 1] upt_rec [of 2] upt_rec [of 3] upt_rec [of 4])

text \<open>
  C4. The result of the path optimizer is the input restricted to a set of positions:
  the first, the last, and every position \<open>i\<close> where the magnitude of the cross product
  \<open>dx1 * dy2 - dy1 * dx2\<close> of the incoming displacement \<open>(dx1, dy1)\<close> from point
  \<open>i - 1\<close> and the outgoing displacement \<open>(dx2, dy2)\<close> to point \<open>i + 1\<close> is above
  0.01. So it is a subsequence of the input, a sequence of at most two points is returned
  unchanged, and the first and the last point are kept.
\<close>

theorem optimizer_subsequence:
  "optimizeRoutePath ws =
     nths ws {i. i = 0 \<or> i = length ws - 1
                \<or> \<bar>(x (ws ! i) - x (ws ! (i - 1))) * (y (ws ! (i + 1)) - y (ws ! i))
                     - (y (ws ! i) - y (ws ! (i - 1))) * (x (ws ! (i + 1)) - x (ws ! i))\<bar> > 0.01}
   \<and> subseq (optimizeRoutePath ws) ws
   \<and> (length ws \<le> 2 \<longrightarrow> optimizeRoutePath ws = ws)
   \<and> (ws \<noteq> [] \<longrightarrow> hd (optimizeRoutePath ws) = hd ws \<and> last (optimizeRoutePath ws) = last ws)"
proof (intro conjI impI)
  show "optimizeRoutePath ws =
     nths ws {i. i = 0 \<or> i = length ws - 1
                \<or> \<bar>(x (ws ! i) - x (ws ! (i - 1))) * (y (ws ! (i + 1)) - y (ws ! i))
                     - (y (ws ! i) - y (ws ! (i - 1))) * (x (ws ! (i + 1)) - x (ws ! i))\<bar> > 0.01}"
    using optimize_nths [of ws] by (simp add: crossProduct_def Let_def)
  show "subseq (optimizeRoutePath ws) ws"
    using optimize_nths subseq_conv_nths by blast
  show "optimizeRoutePath ws = ws" if "length ws \<le> 2"
    using that by (simp add: optimizeRoutePath_def)
  show "hd (optimizeRoutePath ws) = hd ws" if "ws \<noteq> []"
  proof (cases "2 < length ws")
    case True
    have "hd (optimizeRoutePath ws) = ws ! 0"
      by (simp add: optimize_closed_form [OF True])
    also from that have "ws ! 0 = hd ws"
      by (simp add: hd_conv_nth)
    finally show ?thesis .
  next
    case False
    then show ?thesis by (simp add: optimizeRoutePath_def)
  qed
  show "last (optimizeRoutePath ws) = last ws" if "ws \<noteq> []"
  proof (cases "2 < length ws")
    case True
    have "last (optimizeRoutePath ws) = ws ! (length ws - 1)"
      by (simp add: optimize_closed_form [OF True])
    also from that have "ws ! (length ws - 1) = last ws"
      by (simp add: last_conv_nth)
    finally show ?thesis .
  next
    case False
    then show ?thesis by (simp add: optimizeRoutePath_def)
  qed
qed

theorem optimizer_subsequence_witness:
  "length [\<lparr>x = 0, y = 0\<rparr>, \<lparr>x = 1, y = 0\<rparr>] \<le> 2 \<and> [\<lparr>x = 0, y = 0\<rparr>, \<lparr>x = 1, y = 0\<rparr>] \<noteq> []
   \<and> optimizeRoutePath [\<lparr>x = 0, y = 0\<rparr>, \<lparr>x = 1, y = 0\<rparr>] = [\<lparr>x = 0, y = 0\<rparr>, \<lparr>x = 1, y = 0\<rparr>]
   \<and> hd (optimizeRoutePath [\<lparr>x = 0, y = 0\<rparr>, \<lparr>x = 1, y = 0\<rparr>]) = \<lparr>x = 0, y = 0\<rparr>
   \<and> last (optimizeRoutePath [\<lparr>x = 0, y = 0\<rparr>, \<lparr>x = 1, y = 0\<rparr>]) = \<lparr>x = 1, y = 0\<rparr>
   \<and> [\<lparr>x = 0, y = 0\<rparr>, \<lparr>x = 1, y = 0\<rparr>, \<lparr>x = 2, y = 0\<rparr>, \<lparr>x = 2, y = 5\<rparr>, \<lparr>x = 0, y = 5\<rparr>] \<noteq> []
   \<and> optimizeRoutePath
       [\<lparr>x = 0, y = 0\<rparr>, \<lparr>x = 1, y = 0\<rparr>, \<lparr>x = 2, y = 0\<rparr>, \<lparr>x = 2, y = 5\<rparr>, \<lparr>x = 0, y = 5\<rparr>]
     = [\<lparr>x = 0, y = 0\<rparr>, \<lparr>x = 2, y = 0\<rparr>, \<lparr>x = 2, y = 5\<rparr>, \<lparr>x = 0, y = 5\<rparr>]"
proof -
  have short: "optimizeRoutePath [\<lparr>x = 0, y = 0\<rparr>, \<lparr>x = 1, y = 0\<rparr>] = [\<lparr>x = 0, y = 0\<rparr>, \<lparr>x = 1, y = 0\<rparr>]
   \<and> hd (optimizeRoutePath [\<lparr>x = 0, y = 0\<rparr>, \<lparr>x = 1, y = 0\<rparr>]) = \<lparr>x = 0, y = 0\<rparr>
   \<and> last (optimizeRoutePath [\<lparr>x = 0, y = 0\<rparr>, \<lparr>x = 1, y = 0\<rparr>]) = \<lparr>x = 1, y = 0\<rparr>"
    using optimizer_subsequence
      [of "[\<lparr>x = 0, y = 0\<rparr>, \<lparr>x = 1, y = 0\<rparr>]", THEN conjunct2, THEN conjunct2]
    by simp
  have long: "optimizeRoutePath
       [\<lparr>x = 0, y = 0\<rparr>, \<lparr>x = 1, y = 0\<rparr>, \<lparr>x = 2, y = 0\<rparr>, \<lparr>x = 2, y = 5\<rparr>, \<lparr>x = 0, y = 5\<rparr>]
     = [\<lparr>x = 0, y = 0\<rparr>, \<lparr>x = 2, y = 0\<rparr>, \<lparr>x = 2, y = 5\<rparr>, \<lparr>x = 0, y = 5\<rparr>]"
    by (subst optimizer_subsequence [THEN conjunct1]) (simp add: nths_Cons)
  from short long show ?thesis
    by simp
qed

subsection \<open>The route generator\<close>

text \<open>
  C3. For every boundary of fewer than 3 points and every options object,
  \<open>generatePolygonRoute\<close> returns the empty array.
\<close>

theorem too_few_points:
  assumes "length boundaryPoints < 3"
  shows "generatePolygonRoute boundaryPoints opts =
           Some ([''At least 3 boundary points required to generate polygon route''], Waypoints [])"
  using assms by (simp add: generatePolygonRoute_def EARTH_RADIUS_def)

theorem too_few_points_witness:
  "length [\<lparr>lng = 0, lat = 0\<rparr>, \<lparr>lng = 1, lat = 1\<rparr>] < 3
   \<and> map_option snd
       (generatePolygonRoute [\<lparr>lng = 0, lat = 0\<rparr>, \<lparr>lng = 1, lat = 1\<rparr>]
          \<lparr>spacing = Some 30, angle = None, margin = Some 5, options.height = None,
           options.speed = None, overlapRate = None, camera = None, useCamera = None,
           optimizePath = None\<rparr>)
     = Some (Waypoints [])"
proof -
  have h: "length [\<lparr>lng = 0, lat = 0\<rparr>, \<lparr>lng = 1, lat = 1\<rparr>] < 3"
    by simp
  show ?thesis
    using h too_few_points [OF h] by simp
qed

lemma length_shrinkPolygon: "length (shrinkPolygon polygon m) = length polygon"
  by (simp add: shrinkPolygon_def Let_def)

text \<open>
  C9. \<open>shrinkPolygon\<close> returns as many vertices as it is given, so
  \<open>generatePolygonRoute\<close> never takes the return under "Polygon too small after
  applying margin".
\<close>

theorem shrink_keeps_vertices:
  "length (shrinkPolygon polygon m) = length polygon
   \<and> generatePolygonRoute boundaryPoints opts
       \<noteq> Some ([''Polygon too small after applying margin''], r)"
  by (auto simp: generatePolygonRoute_def EARTH_RADIUS_def Let_def length_shrinkPolygon
        split: option.splits)

text \<open>
  When the scan loop ends: it returns for every positive spacing, and it does not return
  when the spacing is zero or negative and the first line is not above the box.
\<close>

lemma scanLoop_bounded:
  assumes "0 < s"
  shows "(yTop - cur) / s < real n \<Longrightarrow> \<exists>r. scanLoop poly yTop s cur li acc = Some r"
proof (induction n arbitrary: cur li acc)
  case 0
  with assms have "\<not> cur \<le> yTop"
    by (simp add: divide_less_0_iff)
  then show ?case
    by (subst scanLoop.simps) simp
next
  case (Suc n)
  show ?case
  proof (cases "cur \<le> yTop")
    case True
    from Suc.prems assms have "(yTop - (cur + s)) / s < real n"
      by (simp add: field_simps)
    from Suc.IH [OF this] show ?thesis
      by (subst scanLoop.simps) (simp add: True Let_def)
  next
    case False
    then show ?thesis
      by (subst scanLoop.simps) simp
  qed
qed

lemma scanLoop_returns:
  assumes "0 < s"
  shows "\<exists>r. scanLoop poly yTop s cur li acc = Some r"
proof -
  obtain n where "(yTop - cur) / s < real n"
    using reals_Archimedean2 by blast
  from scanLoop_bounded [OF assms this] show ?thesis .
qed

lemma scanLoop_no_result:
  assumes "scanLoop poly yTop s cur li acc = Some r"
  shows "\<not> (s \<le> 0 \<and> cur \<le> yTop)"
proof (rule scanLoop.raw_induct [where P = "\<lambda>p t d c l a res. \<not> (d \<le> 0 \<and> c \<le> t)", OF _ assms])
  fix loop and p :: "planar list" and t d c :: real and l :: nat and a res :: "planar list"
  assume IH: "\<And>p t d c l a res. loop p t d c l a = Some res \<Longrightarrow> \<not> (d \<le> 0 \<and> c \<le> t)"
    and body: "(if c \<le> t then
       (let intersections = sort (scanIntersections p c);
            isLeftToRight = (l mod 2 = 0)
        in loop p t d (c + d) (l + 1) (a @ emitPairs isLeftToRight c intersections))
     else Some a) = Some res"
  show "\<not> (d \<le> 0 \<and> c \<le> t)"
  proof
    assume bad: "d \<le> 0 \<and> c \<le> t"
    with body have "loop p t d (c + d) (l + 1)
        (a @ emitPairs (l mod 2 = 0) c (sort (scanIntersections p c))) = Some res"
      by (simp add: Let_def)
    from IH [OF this] bad show False
      by simp
  qed
qed

lemma scanLoop_diverges:
  assumes "s \<le> 0" and "cur \<le> yTop"
  shows "scanLoop poly yTop s cur li acc = None"
proof (cases "scanLoop poly yTop s cur li acc")
  case None
  then show ?thesis .
next
  case (Some r)
  from scanLoop_no_result [OF this] assms show ?thesis
    by simp
qed

lemma routeFromPolygon_returns:
  assumes "0 < s"
  shows "\<exists>r. routeFromPolygon origin polygon s ang h sp optimize = Some r"
proof (cases "getBoundingBox (map (\<lambda>p. rotatePoint p (- ang * pi / 180) (getPolygonCenter polygon)) polygon)")
  case None
  then show ?thesis
    by (simp add: routeFromPolygon_def Let_def)
next
  case (Some box)
  obtain ws where "scanLoop (map (\<lambda>p. rotatePoint p (- ang * pi / 180) (getPolygonCenter polygon)) polygon)
     (maxY box) s (minY box + s / 2) 0 [] = Some ws"
    using scanLoop_returns [OF assms] by blast
  with Some show ?thesis
    by (simp add: routeFromPolygon_def Let_def)
qed

lemma generatePolygonRoute_returns:
  fixes boundaryPoints :: "'a lnglat_scheme list"
  assumes "options.useCamera opts \<noteq> Some True"
    and "options.spacing opts = None \<or> (\<exists>s. options.spacing opts = Some s \<and> 0 < s)"
  shows "\<exists>msgs r. generatePolygonRoute boundaryPoints opts = Some (msgs, Waypoints r)"
proof (cases "length boundaryPoints < 3")
  case True
  then show ?thesis
    by (simp add: generatePolygonRoute_def EARTH_RADIUS_def)
next
  case False
  define s where "s = (case options.spacing opts of None \<Rightarrow> 30 | Some v \<Rightarrow> v)"
  from assms(2) have pos: "0 < s"
    by (auto simp: s_def)
  from assms(1) have off: "(case options.useCamera opts of None \<Rightarrow> False | Some v \<Rightarrow> v) = False"
    by (cases "options.useCamera opts") auto
  have ret: "\<exists>r. routeFromPolygon (origin :: 'a lnglat_scheme) polygon s ang h sp optimize = Some r"
    for origin polygon ang h sp optimize
    by (rule routeFromPolygon_returns [OF pos])
  have fs: "(case options.camera opts of None \<Rightarrow> s | Some cam \<Rightarrow> if False then g cam else s) = s"
    for g :: "camera \<Rightarrow> number"
    by (simp split: option.splits)
  show ?thesis
    using False ret
    by (auto simp: generatePolygonRoute_def Let_def EARTH_RADIUS_def off s_def [symmetric]
          fs length_shrinkPolygon)
qed

lemma never_BuildInfo:
  "generatePolygonRoute boundaryPoints opts \<noteq> Some (msgs, BuildInfo a b)"
  by (auto simp: generatePolygonRoute_def Let_def EARTH_RADIUS_def)

lemma toFixed_n_of_scaled:
  "toFixed_n (real n / 10 ^ f) f = n"
proof -
  have "\<lfloor>real n + 1 / 2\<rfloor> = int n"
    by linarith
  then show ?thesis
    by (simp add: toFixed_n_def)
qed

lemma Number_toFixed_idem:
  "Number_toFixed (Number_toFixed v f) f = Number_toFixed v f"
proof (cases "\<bar>v\<bar> \<ge> 10 ^ 21")
  case True
  then show ?thesis by (simp add: Number_toFixed_def)
next
  case False
  define n where "n = toFixed_n v f"
  show ?thesis
  proof (cases "v < 0 \<and> n \<noteq> 0")
    case True
    then have r: "Number_toFixed v f = - (real n / 10 ^ f)"
      using False by (simp add: Number_toFixed_def n_def)
    from True have neg: "- (real n / 10 ^ f) < 0"
      by simp
    have "toFixed_n (- (real n / 10 ^ f)) f = n"
      using toFixed_n_of_scaled [of n f] by (simp add: toFixed_n_def)
    with neg show ?thesis
      unfolding r by (simp add: Number_toFixed_def)
  next
    case False2: False
    then have r: "Number_toFixed v f = real n / 10 ^ f"
      using False by (auto simp: Number_toFixed_def n_def)
    have "\<not> real n / 10 ^ f < 0"
      by (simp add: not_less)
    then show ?thesis
      unfolding r by (simp add: Number_toFixed_def toFixed_n_of_scaled)
  qed
qed

lemma Number_toFixed_decimal:
  assumes "\<bar>Number_toFixed v f\<bar> < 10 ^ 21"
  shows "\<exists>n::int. Number_toFixed v f = real_of_int n / 10 ^ f"
proof (cases "\<bar>v\<bar> \<ge> 10 ^ 21")
  case True
  with assms show ?thesis by (simp add: Number_toFixed_def)
next
  case False
  show ?thesis
  proof (cases "v < 0")
    case True
    with False have "Number_toFixed v f = real_of_int (- int (toFixed_n v f)) / 10 ^ f"
      by (simp add: Number_toFixed_def)
    then show ?thesis ..
  next
    case nonneg: False
    with False have "Number_toFixed v f = real_of_int (int (toFixed_n v f)) / 10 ^ f"
      by (simp add: Number_toFixed_def)
    then show ?thesis ..
  qed
qed

lemma routeFromPolygon_unrotated:
  "routeFromPolygon origin polygon finalSpacing ang h sp optimize =
     map_option
       (\<lambda>ps. map (\<lambda>(i, p).
                     let coords = unprojectFromMeters (x p) (y p) origin
                     in \<lparr>lng = Number_toFixed (lng coords) 7,
                         lat = Number_toFixed (lat coords) 7,
                         waypoint.height = h, waypoint.speed = Some sp, index = i\<rparr>)
                (enumerate 0 ps))
       (unrotatedWaypoints polygon finalSpacing ang optimize)"
  by (simp add: routeFromPolygon_def unrotatedWaypoints_def Let_def split: option.splits)

lemma generatePolygonRoute_planned:
  fixes boundaryPoints :: "'a lnglat_scheme list"
  assumes "generatePolygonRoute boundaryPoints opts = Some (msgs, Waypoints r)"
    and "r \<noteq> []"
  shows "\<exists>ps. plannedWaypoints boundaryPoints opts = Some ps
           \<and> r = map (\<lambda>(i, p).
                     let coords = unprojectFromMeters (x p) (y p) (boundaryPoints ! 0)
                     in \<lparr>lng = Number_toFixed (lng coords) 7,
                         lat = Number_toFixed (lat coords) 7,
                         waypoint.height = (case options.height opts of None \<Rightarrow> 50 | Some v \<Rightarrow> v),
                         waypoint.speed = Some (case options.speed opts of None \<Rightarrow> 5 | Some v \<Rightarrow> v),
                         index = i\<rparr>)
                (enumerate 0 ps)"
proof -
  have big: "\<not> length boundaryPoints < 3"
    using assms by (auto simp: generatePolygonRoute_def EARTH_RADIUS_def split: if_splits)
  have keep: "\<not> length (shrinkPolygon polygon m) < 3" if "\<not> length polygon < 3" for polygon m
    using that by (simp add: length_shrinkPolygon)
  show ?thesis
    using assms(1) big
    apply (simp add: generatePolygonRoute_def plannedWaypoints_def routeFromPolygon_unrotated
        Let_def EARTH_RADIUS_def length_shrinkPolygon split: if_splits)
    apply auto
    done
qed


lemma step10_nth:
  assumes "r = map (\<lambda>(i, p).
                     let coords = unprojectFromMeters (x p) (y p) origin
                     in \<lparr>lng = Number_toFixed (lng coords) 7,
                         lat = Number_toFixed (lat coords) 7,
                         waypoint.height = h, waypoint.speed = Some sp, index = i\<rparr>)
                (enumerate 0 ps)"
    and "i < length r"
  shows "length ps = length r"
    and "r ! i =
      \<lparr>lng = Number_toFixed (lng (unprojectFromMeters (x (ps ! i)) (y (ps ! i)) origin)) 7,
       lat = Number_toFixed (lat (unprojectFromMeters (x (ps ! i)) (y (ps ! i)) origin)) 7,
       waypoint.height = h, waypoint.speed = Some sp, index = i\<rparr>"
  using assms by (simp_all add: nth_enumerate_eq Let_def)

lemma rounded_fields:
  fixes w :: waypoint
  assumes "w = \<lparr>lng = Number_toFixed cx 7, lat = Number_toFixed cy 7,
       waypoint.height = h, waypoint.speed = Some sp, index = i\<rparr>"
  shows "index w = i" and "waypoint.height w = h" and "waypoint.speed w = Some sp"
    and "lat w = Number_toFixed cy 7" and "lng w = Number_toFixed cx 7"
    and "\<bar>lat w - cy\<bar> \<le> 5 / 10 ^ 8" and "\<bar>lng w - cx\<bar> \<le> 5 / 10 ^ 8"
    and "Number_toFixed (lat w) 7 = lat w" and "Number_toFixed (lng w) 7 = lng w"
    and "\<bar>lat w\<bar> < 10 ^ 21 \<longrightarrow> (\<exists>n::int. lat w = real_of_int n / 10 ^ 7)"
    and "\<bar>lng w\<bar> < 10 ^ 21 \<longrightarrow> (\<exists>n::int. lng w = real_of_int n / 10 ^ 7)"
proof -
  have close: "\<bar>Number_toFixed v 7 - v\<bar> \<le> 5 / 10 ^ 8" for v
    using Number_toFixed_close [of v 7] by simp
  show "index w = i" and "waypoint.height w = h" and "waypoint.speed w = Some sp"
    and "lat w = Number_toFixed cy 7" and "lng w = Number_toFixed cx 7"
    by (simp_all add: assms)
  show "\<bar>lat w - cy\<bar> \<le> 5 / 10 ^ 8" and "\<bar>lng w - cx\<bar> \<le> 5 / 10 ^ 8"
    using close [of cx] close [of cy] by (simp_all add: assms)
  show "Number_toFixed (lat w) 7 = lat w" and "Number_toFixed (lng w) 7 = lng w"
    by (simp_all add: assms Number_toFixed_idem)
  show "\<bar>lat w\<bar> < 10 ^ 21 \<longrightarrow> (\<exists>n::int. lat w = real_of_int n / 10 ^ 7)"
    using Number_toFixed_decimal [of cy 7] by (simp add: assms)
  show "\<bar>lng w\<bar> < 10 ^ 21 \<longrightarrow> (\<exists>n::int. lng w = real_of_int n / 10 ^ 7)"
    using Number_toFixed_decimal [of cx 7] by (simp add: assms)
qed



lemma rotate_zero: "rotatePoint p 0 c = p"
  by (simp add: rotatePoint_def)

lemma scan_square:
  assumes "15 < k" and "k < 45"
  shows "scanLoop [\<lparr>x = 0, y = 0\<rparr>, \<lparr>x = k, y = 0\<rparr>, \<lparr>x = k, y = k\<rparr>, \<lparr>x = 0, y = k\<rparr>] k 30 15 0 []
         = Some [\<lparr>x = 0, y = 15\<rparr>, \<lparr>x = k, y = 15\<rparr>]"
proof -
  let ?poly = "[\<lparr>x = 0, y = 0\<rparr>, \<lparr>x = k, y = 0\<rparr>, \<lparr>x = k, y = k\<rparr>, \<lparr>x = 0, y = k\<rparr>]"
  have hits: "scanIntersections ?poly 15 = [k, 0]"
    using assms
    by (simp add: scanIntersections_def Let_def
          upt_rec [of 0] upt_rec [of 1] upt_rec [of 2] upt_rec [of 3])
  have sorted: "sort [k, 0] = [0, k]"
    using assms by simp
  have stop: "scanLoop ?poly k 30 45 (Suc 0) [\<lparr>x = 0, y = 15\<rparr>, \<lparr>x = k, y = 15\<rparr>]
              = Some [\<lparr>x = 0, y = 15\<rparr>, \<lparr>x = k, y = 15\<rparr>]"
    by (subst scanLoop.simps) (use assms in simp)
  show ?thesis
    by (subst scanLoop.simps) (use assms in \<open>simp add: hits sorted stop\<close>)
qed

lemma unrotated_square:
  assumes "15 < k" and "k < 45"
  shows "unrotatedWaypoints
           [\<lparr>x = 0, y = 0\<rparr>, \<lparr>x = k, y = 0\<rparr>, \<lparr>x = k, y = k\<rparr>, \<lparr>x = 0, y = k\<rparr>] 30 0 True
         = Some [\<lparr>x = 0, y = 15\<rparr>, \<lparr>x = k, y = 15\<rparr>]"
proof -
  have lo: "min 0 k = 0" and hi: "max 0 k = k"
    using assms by simp_all
  show ?thesis
    by (simp add: unrotatedWaypoints_def Let_def rotate_zero lo hi scan_square [OF assms])
qed

lemma planned_square:
  "plannedWaypoints
     [\<lparr>lng = 0, lat = 0\<rparr>, \<lparr>lng = 0.00025, lat = 0\<rparr>, \<lparr>lng = 0.00025, lat = 0.00025\<rparr>,
      \<lparr>lng = 0, lat = 0.00025\<rparr>]
     \<lparr>spacing = None, angle = None, margin = None, options.height = None,
      options.speed = None, overlapRate = None, camera = None, useCamera = None,
      optimizePath = None\<rparr>
   = Some [\<lparr>x = 0, y = 15\<rparr>, \<lparr>x = 0.00025 * pi / 180 * 6378137, y = 15\<rparr>]"
proof -
  define k :: real where "k = 0.00025 * pi / 180 * 6378137"
  have k: "15 < k" "k < 45"
    using pi_ge_two pi_less_4 by (simp_all add: k_def)
  have "plannedWaypoints
     [\<lparr>lng = 0, lat = 0\<rparr>, \<lparr>lng = 0.00025, lat = 0\<rparr>, \<lparr>lng = 0.00025, lat = 0.00025\<rparr>,
      \<lparr>lng = 0, lat = 0.00025\<rparr>]
     \<lparr>spacing = None, angle = None, margin = None, options.height = None,
      options.speed = None, overlapRate = None, camera = None, useCamera = None,
      optimizePath = None\<rparr>
   = unrotatedWaypoints
           [\<lparr>x = 0, y = 0\<rparr>, \<lparr>x = k, y = 0\<rparr>, \<lparr>x = k, y = k\<rparr>, \<lparr>x = 0, y = k\<rparr>] 30 0 True"
    by (simp add: plannedWaypoints_def EARTH_RADIUS_def Let_def projectToMeters_def k_def)
  then show ?thesis
    unfolding unrotated_square [OF k] by (simp add: k_def)
qed

lemma round_quarter_thousandth: "Number_toFixed 0.00025 7 = 0.00025"
proof -
  have "\<lfloor>(5001 / 2 :: real)\<rfloor> = 2500"
    by linarith
  then show ?thesis
    by (simp add: Number_toFixed_def toFixed_n_def)
qed

lemma round_zero: "Number_toFixed 0 7 = 0"
  by (simp add: Number_toFixed_def toFixed_n_def)

lemma generate_square:
  "generatePolygonRoute
     [\<lparr>lng = 0, lat = 0\<rparr>, \<lparr>lng = 0.00025, lat = 0\<rparr>, \<lparr>lng = 0.00025, lat = 0.00025\<rparr>,
      \<lparr>lng = 0, lat = 0.00025\<rparr>]
     \<lparr>spacing = None, angle = None, margin = None, options.height = None,
      options.speed = None, overlapRate = None, camera = None, useCamera = None,
      optimizePath = None\<rparr>
   = Some ([], Waypoints
       [\<lparr>lng = 0, lat = Number_toFixed (2700 / (6378137 * pi)) 7,
         waypoint.height = 50, waypoint.speed = Some 5, index = 0\<rparr>,
        \<lparr>lng = 0.00025, lat = Number_toFixed (2700 / (6378137 * pi)) 7,
         waypoint.height = 50, waypoint.speed = Some 5, index = 1\<rparr>])"
proof -
  define k :: real where "k = 0.00025 * pi / 180 * 6378137"
  have k: "15 < k" "k < 45"
    using pi_ge_two pi_less_4 by (simp_all add: k_def)
  have unscale: "k * 180 / (6378137 * pi) = 0.00025"
    by (simp add: k_def)
  have "generatePolygonRoute
     [\<lparr>lng = 0, lat = 0\<rparr>, \<lparr>lng = 0.00025, lat = 0\<rparr>, \<lparr>lng = 0.00025, lat = 0.00025\<rparr>,
      \<lparr>lng = 0, lat = 0.00025\<rparr>]
     \<lparr>spacing = None, angle = None, margin = None, options.height = None,
      options.speed = None, overlapRate = None, camera = None, useCamera = None,
      optimizePath = None\<rparr>
   = map_option (\<lambda>r. ([], Waypoints r))
       (routeFromPolygon \<lparr>lng = 0, lat = 0\<rparr>
           [\<lparr>x = 0, y = 0\<rparr>, \<lparr>x = k, y = 0\<rparr>, \<lparr>x = k, y = k\<rparr>, \<lparr>x = 0, y = k\<rparr>] 30 0 50 5 True)"
    by (simp add: generatePolygonRoute_def EARTH_RADIUS_def Let_def projectToMeters_def k_def)
  also have "\<dots> = Some ([], Waypoints
       [\<lparr>lng = Number_toFixed 0 7, lat = Number_toFixed (2700 / (6378137 * pi)) 7,
         waypoint.height = 50, waypoint.speed = Some 5, index = 0\<rparr>,
        \<lparr>lng = Number_toFixed (k * 180 / (6378137 * pi)) 7,
         lat = Number_toFixed (2700 / (6378137 * pi)) 7,
         waypoint.height = 50, waypoint.speed = Some 5, index = 1\<rparr>])"
    by (simp add: routeFromPolygon_unrotated unrotated_square [OF k] enumerate_simps
          unprojectFromMeters_def EARTH_RADIUS_def Let_def)
  finally show ?thesis
    by (simp only: unscale round_zero round_quarter_thousandth)
qed


text \<open>
  C8. In every result of \<open>generatePolygonRoute\<close> that holds waypoints, the waypoint at
  position \<open>i\<close> has \<open>index = i\<close>, the configured height and speed (50 and 5 when not
  set), and as latitude and longitude the unprojected coordinates of the planar waypoint
  at position \<open>i\<close> rounded to 7 decimal places: they are \<open>Number(toFixed(7))\<close> of those
  coordinates, within \<open>5 * 10^-8\<close> of them, rounding them again changes nothing, and
  below the magnitude \<open>10^21\<close>, where \<open>toFixed\<close> prints decimals, they are whole
  multiples of \<open>10^-7\<close>.
\<close>

theorem generated_waypoint_fields:
  fixes boundaryPoints :: "'a lnglat_scheme list"
  assumes "generatePolygonRoute boundaryPoints opts = Some (msgs, Waypoints r)"
    and "i < length r"
  shows "index (r ! i) = i
     \<and> waypoint.height (r ! i) = (case options.height opts of None \<Rightarrow> 50 | Some v \<Rightarrow> v)
     \<and> waypoint.speed (r ! i) = Some (case options.speed opts of None \<Rightarrow> 5 | Some v \<Rightarrow> v)
     \<and> (\<exists>ps. plannedWaypoints boundaryPoints opts = Some ps \<and> length ps = length r
           \<and> lat (r ! i)
               = Number_toFixed
                   (lat (unprojectFromMeters (x (ps ! i)) (y (ps ! i)) (boundaryPoints ! 0))) 7
           \<and> lng (r ! i)
               = Number_toFixed
                   (lng (unprojectFromMeters (x (ps ! i)) (y (ps ! i)) (boundaryPoints ! 0))) 7
           \<and> \<bar>lat (r ! i)
                - lat (unprojectFromMeters (x (ps ! i)) (y (ps ! i)) (boundaryPoints ! 0))\<bar>
               \<le> 5 / 10 ^ 8
           \<and> \<bar>lng (r ! i)
                - lng (unprojectFromMeters (x (ps ! i)) (y (ps ! i)) (boundaryPoints ! 0))\<bar>
               \<le> 5 / 10 ^ 8)
     \<and> Number_toFixed (lat (r ! i)) 7 = lat (r ! i)
     \<and> Number_toFixed (lng (r ! i)) 7 = lng (r ! i)
     \<and> (\<bar>lat (r ! i)\<bar> < 10 ^ 21 \<longrightarrow> (\<exists>n::int. lat (r ! i) = real_of_int n / 10 ^ 7))
     \<and> (\<bar>lng (r ! i)\<bar> < 10 ^ 21 \<longrightarrow> (\<exists>n::int. lng (r ! i) = real_of_int n / 10 ^ 7))"
proof -
  from assms(2) have "r \<noteq> []" by auto
  from generatePolygonRoute_planned [OF assms(1) this] obtain ps where
    ps: "plannedWaypoints boundaryPoints opts = Some ps"
    and r: "r = map (\<lambda>(i, p).
                     let coords = unprojectFromMeters (x p) (y p) (boundaryPoints ! 0)
                     in \<lparr>lng = Number_toFixed (lng coords) 7,
                         lat = Number_toFixed (lat coords) 7,
                         waypoint.height = (case options.height opts of None \<Rightarrow> 50 | Some v \<Rightarrow> v),
                         waypoint.speed = Some (case options.speed opts of None \<Rightarrow> 5 | Some v \<Rightarrow> v),
                         index = i\<rparr>)
                (enumerate 0 ps)"
    by blast
  note len = step10_nth(1) [OF r assms(2)]
  note w = step10_nth(2) [OF r assms(2)]
  note f = rounded_fields [OF w]
  show ?thesis
  proof (intro conjI)
    show "\<exists>ps. plannedWaypoints boundaryPoints opts = Some ps \<and> length ps = length r
           \<and> lat (r ! i)
               = Number_toFixed
                   (lat (unprojectFromMeters (x (ps ! i)) (y (ps ! i)) (boundaryPoints ! 0))) 7
           \<and> lng (r ! i)
               = Number_toFixed
                   (lng (unprojectFromMeters (x (ps ! i)) (y (ps ! i)) (boundaryPoints ! 0))) 7
           \<and> \<bar>lat (r ! i)
                - lat (unprojectFromMeters (x (ps ! i)) (y (ps ! i)) (boundaryPoints ! 0))\<bar>
               \<le> 5 / 10 ^ 8
           \<and> \<bar>lng (r ! i)
                - lng (unprojectFromMeters (x (ps ! i)) (y (ps ! i)) (boundaryPoints ! 0))\<bar>
               \<le> 5 / 10 ^ 8"
      by (rule exI [of _ ps]) (intro conjI ps len f(4) f(5) f(6) f(7))
  qed (rule f)+
qed

theorem generated_waypoint_fields_witness:
  "generatePolygonRoute
     [\<lparr>lng = 0, lat = 0\<rparr>, \<lparr>lng = 0.00025, lat = 0\<rparr>, \<lparr>lng = 0.00025, lat = 0.00025\<rparr>,
      \<lparr>lng = 0, lat = 0.00025\<rparr>]
     \<lparr>spacing = None, angle = None, margin = None, options.height = None,
      options.speed = None, overlapRate = None, camera = None, useCamera = None,
      optimizePath = None\<rparr>
   = Some ([], Waypoints
       [\<lparr>lng = 0, lat = Number_toFixed (2700 / (6378137 * pi)) 7,
         waypoint.height = 50, waypoint.speed = Some 5, index = 0\<rparr>,
        \<lparr>lng = 0.00025, lat = Number_toFixed (2700 / (6378137 * pi)) 7,
         waypoint.height = 50, waypoint.speed = Some 5, index = 1\<rparr>])
   \<and> 1 < length
       [\<lparr>lng = 0, lat = Number_toFixed (2700 / (6378137 * pi)) 7,
         waypoint.height = 50, waypoint.speed = Some 5, index = 0\<rparr>,
        \<lparr>lng = 0.00025, lat = Number_toFixed (2700 / (6378137 * pi)) 7,
         waypoint.height = 50, waypoint.speed = Some (5::real), index = 1\<rparr>]
   \<and> \<bar>Number_toFixed (2700 / (6378137 * pi)) 7 - 2700 / (6378137 * pi)\<bar> \<le> 5 / 10 ^ 8
   \<and> 0.0001 < Number_toFixed (2700 / (6378137 * pi)) 7
   \<and> Number_toFixed (2700 / (6378137 * pi)) 7 < 0.00015
   \<and> plannedWaypoints
       [\<lparr>lng = 0, lat = 0\<rparr>, \<lparr>lng = 0.00025, lat = 0\<rparr>, \<lparr>lng = 0.00025, lat = 0.00025\<rparr>,
        \<lparr>lng = 0, lat = 0.00025\<rparr>]
       \<lparr>spacing = None, angle = None, margin = None, options.height = None,
        options.speed = None, overlapRate = None, camera = None, useCamera = None,
        optimizePath = None\<rparr>
     = Some [\<lparr>x = 0, y = 15\<rparr>, \<lparr>x = 0.00025 * pi / 180 * 6378137, y = 15\<rparr>]"
proof -
  have close: "\<bar>Number_toFixed (2700 / (6378137 * pi)) 7 - 2700 / (6378137 * pi)\<bar> \<le> 5 / 10 ^ 8"
    using generated_waypoint_fields [OF generate_square, of 1]
    unfolding planned_square by (simp add: unprojectFromMeters_def EARTH_RADIUS_def)
  define c :: real where "c = 2700 / (6378137 * pi)"
  define v :: real where "v = Number_toFixed c 7"
  have "0.000105 * (6378137 * pi) < 2700" and "2700 < 0.000142 * (6378137 * pi)"
    using pi_less_4 pi_ge_three by simp_all
  then have "0.000105 < c" and "c < 0.000142"
    by (simp_all add: c_def pos_less_divide_eq pos_divide_less_eq)
  moreover from close have "\<bar>v - c\<bar> \<le> 5 / 10 ^ 8"
    by (simp only: v_def c_def)
  then have "c - 5 / 10 ^ 8 \<le> v" and "v \<le> c + 5 / 10 ^ 8"
    by linarith+
  ultimately have "0.0001 < v" and "v < 0.00015"
    by simp_all
  then have "0.0001 < Number_toFixed (2700 / (6378137 * pi)) 7"
    and "Number_toFixed (2700 / (6378137 * pi)) 7 < 0.00015"
    by (simp_all only: v_def c_def)
  with close generate_square planned_square show ?thesis
    by simp
qed

end
